theory Spec2Isabelle
  imports Main "HOL-Library.Multiset"
begin

section \<open>The files command of the pubsub test pipeline\<close>

text \<open>
  A shallow embedding of \<^verbatim>\<open>cmd/pubsub_test/cmd/files.go\<close>: flag validation, the
  closures wired into the pipeline (emit, errHandler, the processor's and the ingestor's
  transport functions) and the construction of the assembler.

  Go strings and byte slices are lists of characters (bytes). A Go \<^verbatim>\<open>error\<close> return is
  an \<open>error option\<close>, with \<open>None\<close> for \<^verbatim>\<open>nil\<close>; a pair \<^verbatim>\<open>(value, error)\<close> whose value is
  \<^verbatim>\<open>nil\<close> on failure is a sum with \<open>Inl\<close> for the error.
\<close>

subsection \<open>Errors\<close>

text \<open>
  \<open>ErrorsNew\<close> is \<^verbatim>\<open>errors.New\<close>, \<open>FmtErrorf\<close> is \<^verbatim>\<open>fmt.Errorf\<close> without a wrapped
  error, \<open>FmtErrorfW\<close> is \<^verbatim>\<open>fmt.Errorf\<close> with a \<^verbatim>\<open>%w\<close> verb, and \<open>External\<close> is an error
  made by a collaborator (the bus, the database client, the JSON encoder).
\<close>

datatype error =
    ErrorsNew string
  | FmtErrorf string
  | FmtErrorfW string error
  | External string

subsection \<open>Options and flag validation\<close>

record options =
  dbAddr :: string
  user :: string
  pass :: string
  realm :: string
  keyPath :: string
  keyID :: string
  path :: string

text \<open>The zero value of the struct, as \<^verbatim>\<open>var opts options\<close> makes it.\<close>

definition zero_options :: options where
  "zero_options =
     \<lparr>dbAddr = [], user = [], pass = [], realm = [], keyPath = [], keyID = [], path = []\<rparr>"

text \<open>
  \<^verbatim>\<open>strings.HasSuffix(s, suffix)\<close> of the Go standard library:
  \<^verbatim>\<open>len(s) >= len(suffix) && s[len(s)-len(suffix):] == suffix\<close>.
\<close>

definition HasSuffix :: "string \<Rightarrow> string \<Rightarrow> bool" where
  "HasSuffix s suffix \<longleftrightarrow>
     length suffix \<le> length s \<and> drop (length s - length suffix) s = suffix"

text \<open>
  \<^verbatim>\<open>validateFlags\<close> returns the options built so far together with the error, as the
  Go function does on each of its three returns. The index \<open>args ! 0\<close> is read only
  where \<open>length args = 1\<close>.
\<close>

definition validateFlags ::
  "string \<Rightarrow> string \<Rightarrow> string \<Rightarrow> string \<Rightarrow> string \<Rightarrow> string \<Rightarrow> string list
     \<Rightarrow> options \<times> error option" where
  "validateFlags user' pass' dbAddr' realm' keyPath' keyID' args =
     (let opts = zero_options\<lparr>user := user', pass := pass', dbAddr := dbAddr', realm := realm'\<rparr>
      in case (if keyPath' \<noteq> []
               then (if HasSuffix keyPath' ''pem''
                     then Inr (opts\<lparr>keyPath := keyPath'\<rparr>)
                     else Inl (opts, ErrorsNew ''key must be passed in as a pem file''))
               else Inr opts) of
           Inl (opts1, err) \<Rightarrow> (opts1, Some err)
         | Inr opts1 \<Rightarrow>
             (let opts2 = (if keyPath' \<noteq> [] then opts1\<lparr>keyID := keyID'\<rparr> else opts1)
              in if length args \<noteq> 1
                 then (opts2, Some (FmtErrorf ''expected positional argument for file_path''))
                 else (opts2\<lparr>path := args ! 0\<rparr>, None)))"

subsection \<open>The world outside the command\<close>

text \<open>
  Everything the command does to its surroundings is a call to a collaborator: the
  console and the logger, the bus, the collector registry and the graph database. A run
  is modelled by the trace of these calls, each recorded with the error it returned.
  The type variables stand for the payload types the command only passes on:
  \<open>'d\<close> for \<^verbatim>\<open>processor.Document\<close>, \<open>'n\<close> for \<^verbatim>\<open>assembler.GuacNode\<close> and \<open>'e\<close> for
  \<^verbatim>\<open>assembler.GuacEdge\<close>.
\<close>

type_synonym bytes = string

record ('n, 'e) Graph =
  Nodes :: "'n list"
  Edges :: "'e list"

text \<open>
  Modelled from the spec: \<^verbatim>\<open>graphdb.CreateAuthTokenWithUsernameAndPassword\<close> and the
  client type of package \<^verbatim>\<open>graphdb\<close> are not among the sources. The spec says the
  assembler "derives an auth credential from (user, pass, realm)" and "opens a database
  client connection"; the credential is the triple, and a client is the connection
  opened for an address with a credential.
\<close>

datatype authToken = BasicAuth string string string

datatype Client = Driver string authToken

definition CreateAuthTokenWithUsernameAndPassword ::
  "string \<Rightarrow> string \<Rightarrow> string \<Rightarrow> authToken" where
  "CreateAuthTokenWithUsernameAndPassword username password realm' =
     BasicAuth username password realm'"

text \<open>
  The two subjects of package \<^verbatim>\<open>emitter\<close>; their string values are not among the
  sources and are not needed.
\<close>

datatype subject = SubjectNameDocCollected | SubjectNameDocProcessed

datatype ('d, 'n, 'e) event =
    Printf_call string error
  | Help_call
  | Info_call string
  | Errorf_call string error
  | Fatal_call error
  | RegisterDocumentCollector_call string "error option"
  | JetStreamInit_call "error option"
  | RecreateStream_call "error option"
  | collector_Publish_call 'd "error option"
  | emitter_Publish_call subject bytes "error option"
  | NewGraphClient_call string authToken "error option"
  | CreateIndexOn_call Client string string "error option"
  | StoreGraph_call "('n, 'e) Graph" Client "error option"

type_synonym ('d, 'n, 'e) trace = "('d, 'n, 'e) event list"

text \<open>
  What the collaborators answer is a parameter of the model: each field gives the error
  (or \<open>None\<close>) of one kind of call, from the trace so far and the call's arguments.
  \<open>range_indices\<close> is the order in which the Go runtime's \<^verbatim>\<open>range\<close> visits the keys of
  the \<^verbatim>\<open>indices\<close> map of \<^verbatim>\<open>createIndices\<close>; Go leaves this order unspecified.
\<close>

record ('d, 'n, 'e) env =
  RegisterDocumentCollector_result :: "('d, 'n, 'e) trace \<Rightarrow> string \<Rightarrow> error option"
  JetStreamInit_result :: "('d, 'n, 'e) trace \<Rightarrow> error option"
  RecreateStream_result :: "('d, 'n, 'e) trace \<Rightarrow> error option"
  collector_Publish_result :: "('d, 'n, 'e) trace \<Rightarrow> 'd \<Rightarrow> error option"
  emitter_Publish_result :: "('d, 'n, 'e) trace \<Rightarrow> subject \<Rightarrow> bytes \<Rightarrow> error option"
  NewGraphClient_result :: "('d, 'n, 'e) trace \<Rightarrow> string \<Rightarrow> authToken \<Rightarrow> error option"
  CreateIndexOn_result :: "('d, 'n, 'e) trace \<Rightarrow> Client \<Rightarrow> string \<Rightarrow> string \<Rightarrow> error option"
  StoreGraph_result :: "('d, 'n, 'e) trace \<Rightarrow> ('n, 'e) Graph \<Rightarrow> Client \<Rightarrow> error option"
  range_indices :: "string list"

text \<open>A call that ends the process (\<^verbatim>\<open>os.Exit\<close>) is a result of its own.\<close>

datatype 'a proc = Exit nat | Return 'a

subsection \<open>The collaborators' calls\<close>

text \<open>
  Registering the file collector made for a path, initialising the bus and recreating
  its stream.
\<close>

definition RegisterDocumentCollector ::
  "('d, 'n, 'e) env \<Rightarrow> string \<Rightarrow> ('d, 'n, 'e) trace \<Rightarrow> error option \<times> ('d, 'n, 'e) trace" where
  "RegisterDocumentCollector ev collectorPath tr =
     (let err = RegisterDocumentCollector_result ev tr collectorPath
      in (err, tr @ [RegisterDocumentCollector_call collectorPath err]))"

definition JetStreamInit ::
  "('d, 'n, 'e) env \<Rightarrow> ('d, 'n, 'e) trace \<Rightarrow> error option \<times> ('d, 'n, 'e) trace" where
  "JetStreamInit ev tr =
     (let err = JetStreamInit_result ev tr in (err, tr @ [JetStreamInit_call err]))"

definition RecreateStream ::
  "('d, 'n, 'e) env \<Rightarrow> ('d, 'n, 'e) trace \<Rightarrow> error option \<times> ('d, 'n, 'e) trace" where
  "RecreateStream ev tr =
     (let err = RecreateStream_result ev tr in (err, tr @ [RecreateStream_call err]))"

definition collector_Publish ::
  "('d, 'n, 'e) env \<Rightarrow> 'd \<Rightarrow> ('d, 'n, 'e) trace \<Rightarrow> error option \<times> ('d, 'n, 'e) trace" where
  "collector_Publish ev d tr =
     (let err = collector_Publish_result ev tr d in (err, tr @ [collector_Publish_call d err]))"

definition emitter_Publish ::
  "('d, 'n, 'e) env \<Rightarrow> subject \<Rightarrow> bytes \<Rightarrow> ('d, 'n, 'e) trace
     \<Rightarrow> error option \<times> ('d, 'n, 'e) trace" where
  "emitter_Publish ev subj payload tr =
     (let err = emitter_Publish_result ev tr subj payload
      in (err, tr @ [emitter_Publish_call subj payload err]))"

definition NewGraphClient ::
  "('d, 'n, 'e) env \<Rightarrow> string \<Rightarrow> authToken \<Rightarrow> ('d, 'n, 'e) trace
     \<Rightarrow> (error + Client) \<times> ('d, 'n, 'e) trace" where
  "NewGraphClient ev addr token tr =
     (let err = NewGraphClient_result ev tr addr token
      in ((case err of Some e \<Rightarrow> Inl e | None \<Rightarrow> Inr (Driver addr token)),
          tr @ [NewGraphClient_call addr token err]))"

definition CreateIndexOn ::
  "('d, 'n, 'e) env \<Rightarrow> Client \<Rightarrow> string \<Rightarrow> string \<Rightarrow> ('d, 'n, 'e) trace
     \<Rightarrow> error option \<times> ('d, 'n, 'e) trace" where
  "CreateIndexOn ev client label attribute tr =
     (let err = CreateIndexOn_result ev tr client label attribute
      in (err, tr @ [CreateIndexOn_call client label attribute err]))"

definition StoreGraph ::
  "('d, 'n, 'e) env \<Rightarrow> ('n, 'e) Graph \<Rightarrow> Client \<Rightarrow> ('d, 'n, 'e) trace
     \<Rightarrow> error option \<times> ('d, 'n, 'e) trace" where
  "StoreGraph ev g client tr =
     (let err = StoreGraph_result ev tr g client
      in (err, tr @ [StoreGraph_call g client err]))"

text \<open>
  Modelled from the spec: \<^verbatim>\<open>Graph.AppendGraph\<close> of package \<^verbatim>\<open>assembler\<close> is not among
  the sources. The spec forms a MergedGraph "by concatenating their node and edge
  collections", with no deduplication.
\<close>

definition AppendGraph :: "('n, 'e) Graph \<Rightarrow> ('n, 'e) Graph \<Rightarrow> ('n, 'e) Graph" where
  "AppendGraph combined g =
     combined\<lparr>Nodes := Nodes combined @ Nodes g, Edges := Edges combined @ Edges g\<rparr>"

subsection \<open>The assembler\<close>

text \<open>The map literal of \<^verbatim>\<open>createIndices\<close>.\<close>

definition indices :: "string \<rightharpoonup> string list" where
  "indices =
     [''Artifact'' \<mapsto> [''digest'', ''name''],
      ''Package'' \<mapsto> [''purl'', ''name''],
      ''Metadata'' \<mapsto> [''id''],
      ''Attestation'' \<mapsto> [''digest''],
      ''Vulnerability'' \<mapsto> [''id'']]"

text \<open>The inner loop of \<^verbatim>\<open>createIndices\<close>, over the attributes of one label.\<close>

fun createIndices_attributes ::
  "('d, 'n, 'e) env \<Rightarrow> Client \<Rightarrow> string \<Rightarrow> string list \<Rightarrow> ('d, 'n, 'e) trace
     \<Rightarrow> error option \<times> ('d, 'n, 'e) trace" where
  "createIndices_attributes ev client label [] tr = (None, tr)"
| "createIndices_attributes ev client label (attribute # attributes) tr =
     (case CreateIndexOn ev client label attribute tr of
        (Some err, tr') \<Rightarrow> (Some err, tr')
      | (None, tr') \<Rightarrow> createIndices_attributes ev client label attributes tr')"

text \<open>
  The outer loop, over the labels in the order the runtime visits them. A label that is
  not a key of the map has no entry to visit.
\<close>

fun createIndices_labels ::
  "('d, 'n, 'e) env \<Rightarrow> Client \<Rightarrow> string list \<Rightarrow> ('d, 'n, 'e) trace
     \<Rightarrow> error option \<times> ('d, 'n, 'e) trace" where
  "createIndices_labels ev client [] tr = (None, tr)"
| "createIndices_labels ev client (label # labels) tr =
     (case indices label of
        None \<Rightarrow> createIndices_labels ev client labels tr
      | Some attributes \<Rightarrow>
          (case createIndices_attributes ev client label attributes tr of
             (Some err, tr') \<Rightarrow> (Some err, tr')
           | (None, tr') \<Rightarrow> createIndices_labels ev client labels tr'))"

definition createIndices ::
  "('d, 'n, 'e) env \<Rightarrow> Client \<Rightarrow> ('d, 'n, 'e) trace \<Rightarrow> error option \<times> ('d, 'n, 'e) trace" where
  "createIndices ev client tr = createIndices_labels ev client (range_indices ev) tr"

text \<open>
  The closure \<^verbatim>\<open>getAssembler\<close> returns. \<open>combined\<close> is the graph its loop builds, from
  the empty graph.
\<close>

definition combined :: "('n, 'e) Graph list \<Rightarrow> ('n, 'e) Graph" where
  "combined gs = foldl AppendGraph \<lparr>Nodes = [], Edges = []\<rparr> gs"

definition assemblerFunc ::
  "('d, 'n, 'e) env \<Rightarrow> Client \<Rightarrow> ('n, 'e) Graph list \<Rightarrow> ('d, 'n, 'e) trace
     \<Rightarrow> error option \<times> ('d, 'n, 'e) trace" where
  "assemblerFunc ev client gs tr =
     (case StoreGraph ev (combined gs) client tr of
        (Some err, tr') \<Rightarrow> (Some err, tr')
      | (None, tr') \<Rightarrow> (None, tr'))"

definition getAssembler ::
  "('d, 'n, 'e) env \<Rightarrow> options \<Rightarrow> ('d, 'n, 'e) trace
     \<Rightarrow> (error + (('n, 'e) Graph list \<Rightarrow> ('d, 'n, 'e) trace
                    \<Rightarrow> error option \<times> ('d, 'n, 'e) trace))
        \<times> ('d, 'n, 'e) trace" where
  "getAssembler ev opts tr =
     (let authToken = CreateAuthTokenWithUsernameAndPassword (user opts) (pass opts) (realm opts)
      in case NewGraphClient ev (dbAddr opts) authToken tr of
           (Inl err, tr1) \<Rightarrow> (Inl err, tr1)
         | (Inr client, tr1) \<Rightarrow>
             (case createIndices ev client tr1 of
                (Some err, tr2) \<Rightarrow> (Inl err, tr2)
              | (None, tr2) \<Rightarrow> (Inr (assemblerFunc ev client), tr2)))"

subsection \<open>The closures of the command\<close>

text \<open>
  \<^verbatim>\<open>processorTransportFunc\<close>. \<^verbatim>\<open>json.Marshal\<close> is a parameter: a function from the
  document tree (of type \<open>'t\<close>) to its bytes or an error.
\<close>

definition processorTransportFunc ::
  "('d, 'n, 'e) env \<Rightarrow> ('t \<Rightarrow> error + bytes) \<Rightarrow> 't \<Rightarrow> ('d, 'n, 'e) trace
     \<Rightarrow> error option \<times> ('d, 'n, 'e) trace" where
  "processorTransportFunc ev Marshal d tr =
     (case Marshal d of
        Inl err \<Rightarrow> (Some (FmtErrorfW ''failed marshal of document: %w'' err), tr)
      | Inr docTreeBytes \<Rightarrow>
          (case emitter_Publish ev SubjectNameDocProcessed docTreeBytes tr of
             (Some err, tr') \<Rightarrow> (Some err, tr')
           | (None, tr') \<Rightarrow> (None, tr')))"

text \<open>\<^verbatim>\<open>ingestorTransportFunc\<close> hands the fragments to the assembler's function.\<close>

definition ingestorTransportFunc ::
  "(('n, 'e) Graph list \<Rightarrow> ('d, 'n, 'e) trace \<Rightarrow> error option \<times> ('d, 'n, 'e) trace)
     \<Rightarrow> ('n, 'e) Graph list \<Rightarrow> ('d, 'n, 'e) trace \<Rightarrow> error option \<times> ('d, 'n, 'e) trace" where
  "ingestorTransportFunc assemblerFunc' d tr =
     (case assemblerFunc' d tr of
        (Some err, tr') \<Rightarrow> (Some err, tr')
      | (None, tr') \<Rightarrow> (None, tr'))"

text \<open>The closure \<^verbatim>\<open>getCollectorPublish\<close> returns.\<close>

definition collectorPubFunc ::
  "('d, 'n, 'e) env \<Rightarrow> 'd \<Rightarrow> ('d, 'n, 'e) trace \<Rightarrow> error option \<times> ('d, 'n, 'e) trace" where
  "collectorPubFunc ev d tr = collector_Publish ev d tr"

text \<open>
  \<^verbatim>\<open>emit\<close>: a publish error is logged and the process exits with status 1; otherwise
  \<^verbatim>\<open>emit\<close> returns \<^verbatim>\<open>nil\<close>.
\<close>

definition emit ::
  "('d, 'n, 'e) env \<Rightarrow> 'd \<Rightarrow> ('d, 'n, 'e) trace \<Rightarrow> error option proc \<times> ('d, 'n, 'e) trace" where
  "emit ev d tr =
     (case collectorPubFunc ev d tr of
        (Some err, tr') \<Rightarrow> (Exit 1, tr' @ [Errorf_call ''collector ended with error: %v'' err])
      | (None, tr') \<Rightarrow> (Return None, tr'))"

definition errHandler ::
  "error option \<Rightarrow> ('d, 'n, 'e) trace \<Rightarrow> bool \<times> ('d, 'n, 'e) trace" where
  "errHandler err tr =
     (case err of
        None \<Rightarrow> (True, tr @ [Info_call ''collector ended gracefully''])
      | Some e \<Rightarrow> (False, tr @ [Errorf_call ''collector ended with error: %v'' e]))"

text \<open>
  Modelled from the spec: \<^verbatim>\<open>collector.Collect\<close> is not among the sources. Of the
  collector driver the spec says: "The driver calls \<open>emit\<close> once per discovered document,
  synchronously, and aborts enumeration immediately if \<open>emit\<close> returns an error".
  \<open>Collect_enumerate\<close> is that enumeration over the discovered documents, in order; it
  ends with the process when \<open>emit\<close> exits, and with the error when \<open>emit\<close> returns one.
\<close>

fun Collect_enumerate ::
  "('d \<Rightarrow> ('d, 'n, 'e) trace \<Rightarrow> error option proc \<times> ('d, 'n, 'e) trace)
     \<Rightarrow> 'd list \<Rightarrow> ('d, 'n, 'e) trace \<Rightarrow> error option proc \<times> ('d, 'n, 'e) trace" where
  "Collect_enumerate emit' [] tr = (Return None, tr)"
| "Collect_enumerate emit' (d # ds) tr =
     (case emit' d tr of
        (Exit n, tr') \<Rightarrow> (Exit n, tr')
      | (Return (Some err), tr') \<Rightarrow> (Return (Some err), tr')
      | (Return None, tr') \<Rightarrow> Collect_enumerate emit' ds tr')"

subsection \<open>The sequential part of the command\<close>

text \<open>
  The body of \<^verbatim>\<open>filesCmd.Run\<close> up to the point where the pipeline is wired and the
  subscriber loops are about to start: the values read from the configuration are
  parameters, each \<^verbatim>\<open>os.Exit(1)\<close> ends the run, and a logged error that does not exit
  lets it go on. \<^verbatim>\<open>getCollectorPublish\<close>, \<^verbatim>\<open>getProcessor\<close> and \<^verbatim>\<open>getIngestor\<close> only
  build closures and never return an error. The deferred \<^verbatim>\<open>jetStream.Close\<close> runs when
  \<^verbatim>\<open>Run\<close> returns, which is after this part, and not at all when the process exits. A
  successful setup returns the options and the assembler's function.
\<close>

definition filesCmd_Run_setup ::
  "('d, 'n, 'e) env \<Rightarrow> string \<Rightarrow> string \<Rightarrow> string \<Rightarrow> string \<Rightarrow> string \<Rightarrow> string
     \<Rightarrow> string list \<Rightarrow> ('d, 'n, 'e) trace
     \<Rightarrow> (options \<times> (('n, 'e) Graph list \<Rightarrow> ('d, 'n, 'e) trace
                        \<Rightarrow> error option \<times> ('d, 'n, 'e) trace)) proc
        \<times> ('d, 'n, 'e) trace" where
  "filesCmd_Run_setup ev gdbuser gdbpass gdbaddr realm' keyPath' keyID' args tr =
     (case validateFlags gdbuser gdbpass gdbaddr realm' keyPath' keyID' args of
        (opts, Some err) \<Rightarrow>
          (Exit 1, tr @ [Printf_call (''unable to validate flags: %v'' @ [CHR 0x0A]) err,
                         Help_call])
      | (opts, None) \<Rightarrow>
          (case RegisterDocumentCollector ev (path opts) tr of
             (rerr, tr1) \<Rightarrow>
               (let tr2 = (case rerr of
                             Some e \<Rightarrow>
                               tr1 @ [Errorf_call ''unable to register file collector: %v'' e]
                           | None \<Rightarrow> tr1)
                in case JetStreamInit ev tr2 of
                     (Some e, tr3) \<Rightarrow>
                       (Exit 1,
                        tr3 @ [Errorf_call ''jetStream initialization failed with error: %v'' e])
                   | (None, tr3) \<Rightarrow>
                       (case RecreateStream ev tr3 of
                          (serr, tr4) \<Rightarrow>
                            (let tr5 = (case serr of
                                          Some e \<Rightarrow>
                                            tr4 @ [Errorf_call
                                              ''unexpected error recreating jetstream: %v'' e]
                                        | None \<Rightarrow> tr4)
                             in case getAssembler ev opts tr5 of
                                  (Inl e, tr6) \<Rightarrow> (Exit 1, tr6 @ [Errorf_call ''error: %v'' e])
                                | (Inr assemblerFunc', tr6) \<Rightarrow>
                                    (Return (opts, assemblerFunc'), tr6))))))"

subsection \<open>Observations on traces\<close>

text \<open>The calls made on the bus, in order.\<close>

primrec bus_calls :: "('d, 'n, 'e) trace \<Rightarrow> ('d, 'n, 'e) trace" where
  "bus_calls [] = []"
| "bus_calls (x # xs) =
     (case x of
        JetStreamInit_call err \<Rightarrow> x # bus_calls xs
      | RecreateStream_call err \<Rightarrow> x # bus_calls xs
      | collector_Publish_call d err \<Rightarrow> x # bus_calls xs
      | emitter_Publish_call subj payload err \<Rightarrow> x # bus_calls xs
      | _ \<Rightarrow> bus_calls xs)"

text \<open>The documents offered to the bus by \<^verbatim>\<open>collector.Publish\<close>, in order.\<close>

primrec offered :: "('d, 'n, 'e) trace \<Rightarrow> 'd list" where
  "offered [] = []"
| "offered (x # xs) =
     (case x of
        collector_Publish_call d err \<Rightarrow> d # offered xs
      | _ \<Rightarrow> offered xs)"

text \<open>The (label, attribute) pairs of the index creations, and the errors they returned.\<close>

primrec index_calls :: "('d, 'n, 'e) trace \<Rightarrow> (string \<times> string) list" where
  "index_calls [] = []"
| "index_calls (x # xs) =
     (case x of
        CreateIndexOn_call client label attribute err \<Rightarrow> (label, attribute) # index_calls xs
      | _ \<Rightarrow> index_calls xs)"

primrec index_errors :: "('d, 'n, 'e) trace \<Rightarrow> error list" where
  "index_errors [] = []"
| "index_errors (x # xs) =
     (case x of
        CreateIndexOn_call client label attribute (Some err) \<Rightarrow> err # index_errors xs
      | _ \<Rightarrow> index_errors xs)"

text \<open>The entries of the \<^verbatim>\<open>indices\<close> map under one label.\<close>

definition label_entries :: "string \<Rightarrow> (string \<times> string) list" where
  "label_entries label =
     (case indices label of None \<Rightarrow> [] | Some attributes \<Rightarrow> map (Pair label) attributes)"

text \<open>
  The index entries the assembler needs: Artifact(digest, name), Package(purl, name),
  Metadata(id), Attestation(digest), Vulnerability(id).
\<close>

definition required_indices :: "(string \<times> string) list" where
  "required_indices =
     [(''Artifact'', ''digest''), (''Artifact'', ''name''),
      (''Package'', ''purl''), (''Package'', ''name''),
      (''Metadata'', ''id''),
      (''Attestation'', ''digest''),
      (''Vulnerability'', ''id'')]"

subsection \<open>Example surroundings\<close>

text \<open>
  Surroundings in which every call succeeds, with one of the orders in which the runtime
  may visit the map; the examples below start from it.
\<close>

definition env_ok :: "('d, 'n, 'e) env" where
  "env_ok =
     \<lparr>RegisterDocumentCollector_result = (\<lambda>tr p. None),
      JetStreamInit_result = (\<lambda>tr. None),
      RecreateStream_result = (\<lambda>tr. None),
      collector_Publish_result = (\<lambda>tr d. None),
      emitter_Publish_result = (\<lambda>tr subj payload. None),
      NewGraphClient_result = (\<lambda>tr addr token. None),
      CreateIndexOn_result = (\<lambda>tr client label attribute. None),
      StoreGraph_result = (\<lambda>tr g client. None),
      range_indices = [''Vulnerability'', ''Artifact'', ''Metadata'', ''Package'', ''Attestation'']\<rparr>"

definition opts_example :: options where
  "opts_example =
     \<lparr>dbAddr = ''neo4j://localhost:7687'', user = ''neo4j'', pass = ''s3cr3t'',
      realm = ''neo4j'', keyPath = [], keyID = [], path = ''docs''\<rparr>"

definition client_example :: Client where
  "client_example =
     Driver ''neo4j://localhost:7687'' (BasicAuth ''neo4j'' ''s3cr3t'' ''neo4j'')"

section \<open>Flag validation\<close>

lemma HasSuffix_iff: "HasSuffix s suffix \<longleftrightarrow> (\<exists>p. s = p @ suffix)"
proof
  assume h: "HasSuffix s suffix"
  have "s = take (length s - length suffix) s @ drop (length s - length suffix) s"
    by simp
  with h show "\<exists>p. s = p @ suffix" unfolding HasSuffix_def by metis
next
  assume "\<exists>p. s = p @ suffix"
  then show "HasSuffix s suffix" by (auto simp: HasSuffix_def)
qed

text \<open>A path that ends in \<^verbatim>\<open>.pem\<close> ends in \<^verbatim>\<open>pem\<close>; the converse fails.\<close>

lemma HasSuffix_dot_pem: "HasSuffix s ''.pem'' \<Longrightarrow> HasSuffix s ''pem''"
proof -
  assume "HasSuffix s ''.pem''"
  then obtain p where "s = p @ ''.pem''" unfolding HasSuffix_iff ..
  then have "s = (p @ ''.'') @ ''pem''" by simp
  then show ?thesis unfolding HasSuffix_iff ..
qed

lemma validateFlags_error_exits:
  assumes "snd (validateFlags gdbuser gdbpass gdbaddr realm' keyPath' keyID' args) = Some err"
  shows "filesCmd_Run_setup ev gdbuser gdbpass gdbaddr realm' keyPath' keyID' args tr =
           (Exit 1, tr @ [Printf_call (''unable to validate flags: %v'' @ [CHR 0x0A]) err,
                          Help_call])"
  using assms
  by (cases "validateFlags gdbuser gdbpass gdbaddr realm' keyPath' keyID' args")
    (simp add: filesCmd_Run_setup_def)

lemma bus_calls_append: "bus_calls (xs @ ys) = bus_calls xs @ bus_calls ys"
  by (induction xs) (simp_all split: event.split)

text \<open>
  Where the key path is not empty and does not even end in \<^verbatim>\<open>pem\<close>, the check does
  its work: \<^verbatim>\<open>validateFlags\<close> returns the error "key must be passed in as a pem file",
  whatever the other flags and arguments are; the command then prints the error and its
  help and exits with status 1, and no call on the bus has been made.
\<close>

lemma validateFlags_rejects_other_suffix:
  assumes "keyPath' \<noteq> []" and "\<not> HasSuffix keyPath' ''pem''"
  shows "snd (validateFlags gdbuser gdbpass gdbaddr realm' keyPath' keyID' args)
           = Some (ErrorsNew ''key must be passed in as a pem file'') \<and>
         fst (filesCmd_Run_setup ev gdbuser gdbpass gdbaddr realm' keyPath' keyID' args tr)
           = Exit 1 \<and>
         bus_calls (snd (filesCmd_Run_setup ev gdbuser gdbpass gdbaddr realm' keyPath' keyID'
                           args tr))
           = bus_calls tr"
proof -
  have v: "snd (validateFlags gdbuser gdbpass gdbaddr realm' keyPath' keyID' args)
             = Some (ErrorsNew ''key must be passed in as a pem file'')"
    using assms by (simp add: validateFlags_def Let_def)
  show ?thesis
    unfolding validateFlags_error_exits [OF v] using v by (simp add: bus_calls_append)
qed

text \<open>
  C2 asks that every non-empty key path without the suffix \<^verbatim>\<open>.pem\<close> be refused before any
  bus connection is attempted. The check in \<^verbatim>\<open>validateFlags\<close> compares with \<^verbatim>\<open>pem\<close>, without
  the dot, and so lets through a path that names no pem file: the path \<^verbatim>\<open>keypem\<close> is not
  empty and does not end in \<^verbatim>\<open>.pem\<close>, yet \<^verbatim>\<open>validateFlags\<close> returns no error and keeps the
  path in the options, and the command goes on to initialise the bus and to recreate
  its stream.
\<close>

theorem validateFlags_accepts_keypem:
  "''keypem'' \<noteq> [] \<and> \<not> HasSuffix ''keypem'' ''.pem'' \<and>
   snd (validateFlags ''neo4j'' ''s3cr3t'' ''neo4j://localhost:7687'' ''neo4j'' ''keypem'' ''k1''
          [''docs'']) = None \<and>
   keyPath (fst (validateFlags ''neo4j'' ''s3cr3t'' ''neo4j://localhost:7687'' ''neo4j''
          ''keypem'' ''k1'' [''docs''])) = ''keypem'' \<and>
   bus_calls (snd (filesCmd_Run_setup (env_ok :: (nat, nat, nat) env) ''neo4j'' ''s3cr3t''
          ''neo4j://localhost:7687'' ''neo4j'' ''keypem'' ''k1'' [''docs''] []))
     = [JetStreamInit_call None, RecreateStream_call None]"
proof -
  have v: "validateFlags ''neo4j'' ''s3cr3t'' ''neo4j://localhost:7687'' ''neo4j'' ''keypem''
             ''k1'' [''docs'']
           = (opts_example\<lparr>keyPath := ''keypem'', keyID := ''k1''\<rparr>, None)"
    by (simp add: validateFlags_def HasSuffix_def Let_def zero_options_def opts_example_def)
  have g: "getAssembler (env_ok :: (nat, nat, nat) env)
             (opts_example\<lparr>keyPath := ''keypem'', keyID := ''k1''\<rparr>) tr
           = (Inr (assemblerFunc env_ok client_example),
              tr @ [NewGraphClient_call ''neo4j://localhost:7687''
                      (BasicAuth ''neo4j'' ''s3cr3t'' ''neo4j'') None,
                    CreateIndexOn_call client_example ''Vulnerability'' ''id'' None,
                    CreateIndexOn_call client_example ''Artifact'' ''digest'' None,
                    CreateIndexOn_call client_example ''Artifact'' ''name'' None,
                    CreateIndexOn_call client_example ''Metadata'' ''id'' None,
                    CreateIndexOn_call client_example ''Package'' ''purl'' None,
                    CreateIndexOn_call client_example ''Package'' ''name'' None,
                    CreateIndexOn_call client_example ''Attestation'' ''digest'' None])" for tr
    by (simp add: getAssembler_def NewGraphClient_def createIndices_def CreateIndexOn_def
        CreateAuthTokenWithUsernameAndPassword_def indices_def env_ok_def opts_example_def
        client_example_def Let_def)
  have r: "RegisterDocumentCollector (env_ok :: (nat, nat, nat) env) p tr
             = (None, tr @ [RegisterDocumentCollector_call p None])" for p tr
    by (simp add: RegisterDocumentCollector_def env_ok_def)
  have j: "JetStreamInit (env_ok :: (nat, nat, nat) env) tr = (None, tr @ [JetStreamInit_call None])"
    for tr
    by (simp add: JetStreamInit_def env_ok_def)
  have c: "RecreateStream (env_ok :: (nat, nat, nat) env) tr
             = (None, tr @ [RecreateStream_call None])" for tr
    by (simp add: RecreateStream_def env_ok_def)
  have "bus_calls (snd (filesCmd_Run_setup (env_ok :: (nat, nat, nat) env) ''neo4j'' ''s3cr3t''
          ''neo4j://localhost:7687'' ''neo4j'' ''keypem'' ''k1'' [''docs''] []))
     = [JetStreamInit_call None, RecreateStream_call None]"
    by (simp add: filesCmd_Run_setup_def v r j c g)
  moreover have "\<not> HasSuffix ''keypem'' ''.pem''" by (simp add: HasSuffix_def)
  ultimately show ?thesis by (simp add: v)
qed

text \<open>
  C8: an argument list whose length is not one makes \<^verbatim>\<open>validateFlags\<close> return an error,
  whatever the flags are. With exactly one argument and a key path that is empty or
  ends in \<^verbatim>\<open>pem\<close>, it returns no error and the path of the options is that argument.
\<close>

theorem validateFlags_args:
  "(length args \<noteq> 1 \<longrightarrow>
      snd (validateFlags user' pass' dbAddr' realm' keyPath' keyID' args) \<noteq> None) \<and>
   (length args = 1 \<and> (keyPath' = [] \<or> HasSuffix keyPath' ''pem'') \<longrightarrow>
      snd (validateFlags user' pass' dbAddr' realm' keyPath' keyID' args) = None \<and>
      path (fst (validateFlags user' pass' dbAddr' realm' keyPath' keyID' args)) = args ! 0)"
  by (simp add: validateFlags_def Let_def)

theorem validateFlags_args_witness:
  "snd (validateFlags ''neo4j'' ''s3cr3t'' ''neo4j://localhost:7687'' ''neo4j'' [] [] []) \<noteq> None \<and>
   snd (validateFlags ''neo4j'' ''s3cr3t'' ''neo4j://localhost:7687'' ''neo4j'' [] []
          [''docs'', ''more'']) \<noteq> None \<and>
   snd (validateFlags ''neo4j'' ''s3cr3t'' ''neo4j://localhost:7687'' ''neo4j'' ''key.pem'' ''k1''
          [''docs'']) = None \<and>
   path (fst (validateFlags ''neo4j'' ''s3cr3t'' ''neo4j://localhost:7687'' ''neo4j'' ''key.pem''
          ''k1'' [''docs''])) = ''docs''"
  using validateFlags_args [of "[]" "''neo4j''" "''s3cr3t''" "''neo4j://localhost:7687''"
      "''neo4j''" "[]" "[]"]
    validateFlags_args [of "[''docs'', ''more'']" "''neo4j''" "''s3cr3t''"
      "''neo4j://localhost:7687''" "''neo4j''" "[]" "[]"]
    validateFlags_args [of "[''docs'']" "''neo4j''" "''s3cr3t''" "''neo4j://localhost:7687''"
      "''neo4j''" "''key.pem''" "''k1''"]
  by (simp add: HasSuffix_def)

text \<open>
  C10: with an empty key path the options that \<^verbatim>\<open>validateFlags\<close> returns have an empty
  key identifier, whatever identifier was passed and whether or not an error is
  returned; so a non-empty identifier in the options means a non-empty key path.
\<close>

theorem validateFlags_keyID_empty:
  "keyPath' = [] \<Longrightarrow>
     keyID (fst (validateFlags user' pass' dbAddr' realm' keyPath' keyID' args)) = []"
  by (simp add: validateFlags_def Let_def zero_options_def)

theorem validateFlags_keyID_empty_witness:
  "keyID (fst (validateFlags ''neo4j'' ''s3cr3t'' ''neo4j://localhost:7687'' ''neo4j'' []
      ''k1'' [''docs''])) = []"
proof -
  have h: "([] :: string) = []" by simp
  show ?thesis
    using validateFlags_keyID_empty [OF h, of "''neo4j''" "''s3cr3t''"
        "''neo4j://localhost:7687''" "''neo4j''" "''k1''" "[''docs'']"]
    by simp
qed

section \<open>The collector's callbacks\<close>

text \<open>
  C6: \<^verbatim>\<open>errHandler\<close> returns true exactly when the error it receives is \<^verbatim>\<open>nil\<close>.
\<close>

theorem errHandler_graceful:
  "fst (errHandler err tr) \<longleftrightarrow> err = None"
  by (cases err) (simp_all add: errHandler_def)

theorem errHandler_graceful_witness:
  "fst (errHandler None ([] :: (nat, nat, nat) trace)) \<and>
   \<not> fst (errHandler (Some (External ''walk failed'')) ([] :: (nat, nat, nat) trace))"
  using errHandler_graceful [of None "[] :: (nat, nat, nat) trace"]
    errHandler_graceful [of "Some (External ''walk failed'')" "[] :: (nat, nat, nat) trace"]
  by simp

text \<open>\<^verbatim>\<open>emit\<close> never returns an error: it returns \<^verbatim>\<open>nil\<close> or ends the process.\<close>

lemma emit_results: "fst (emit ev d tr) = Exit 1 \<or> fst (emit ev d tr) = Return None"
  by (simp add: emit_def collectorPubFunc_def collector_Publish_def Let_def split: option.split)

lemma offered_append: "offered (xs @ ys) = offered xs @ offered ys"
  by (induction xs) (simp_all split: event.split)

lemma offered_map: "offered (map (\<lambda>d. collector_Publish_call d err) ds) = ds"
  by (induction ds) simp_all

text \<open>
  While the publishes succeed, the enumeration goes on and the trace grows by one
  successful publish per document.
\<close>

lemma Collect_enumerate_emit_prefix:
  assumes "\<forall>i < length pre.
             collector_Publish_result ev
               (tr @ map (\<lambda>d. collector_Publish_call d None) (take i pre)) (pre ! i) = None"
  shows "Collect_enumerate (emit ev) (pre @ rest) tr =
           Collect_enumerate (emit ev) rest (tr @ map (\<lambda>d. collector_Publish_call d None) pre)"
  using assms
proof (induction pre arbitrary: tr)
  case Nil
  then show ?case by simp
next
  case (Cons d ds)
  from Cons.prems have d: "collector_Publish_result ev tr d = None" by force
  have "\<forall>i < length ds.
          collector_Publish_result ev
            ((tr @ [collector_Publish_call d None])
               @ map (\<lambda>d. collector_Publish_call d None) (take i ds)) (ds ! i) = None"
  proof (intro allI impI)
    fix i assume "i < length ds"
    then have "Suc i < length (d # ds)" by simp
    with Cons.prems show "collector_Publish_result ev
            ((tr @ [collector_Publish_call d None])
               @ map (\<lambda>d. collector_Publish_call d None) (take i ds)) (ds ! i) = None"
      by force
  qed
  from Cons.IH [OF this] d show ?case
    by (simp add: emit_def collectorPubFunc_def collector_Publish_def Let_def)
qed

text \<open>
  C3: let the publishes of the first \<open>N - 1\<close> documents succeed and the publish of the
  \<open>N\<close>-th fail. Then \<^verbatim>\<open>emit\<close> ends the process with status 1 at the \<open>N\<close>-th document, and
  the documents offered to the bus during the enumeration are exactly the first \<open>N\<close>:
  document \<open>N + 1\<close> is never offered.
\<close>

theorem emit_failure_aborts_enumeration:
  assumes "0 < N" and "N \<le> length docs"
      and "\<forall>i < N - 1.
             collector_Publish_result ev
               (tr @ map (\<lambda>d. collector_Publish_call d None) (take i docs)) (docs ! i) = None"
      and "collector_Publish_result ev
             (tr @ map (\<lambda>d. collector_Publish_call d None) (take (N - 1) docs)) (docs ! (N - 1))
           = Some err"
  shows "fst (Collect_enumerate (emit ev) docs tr) = Exit 1 \<and>
         offered (snd (Collect_enumerate (emit ev) docs tr)) = offered tr @ take N docs"
proof -
  let ?pre = "take (N - 1) docs"
  let ?d = "docs ! (N - 1)"
  let ?rest = "drop N docs"
  let ?tr1 = "tr @ map (\<lambda>d. collector_Publish_call d None) ?pre"
  have docs: "docs = ?pre @ ?d # ?rest"
    using id_take_nth_drop [of "N - 1" docs] assms(1,2) by simp
  have tk: "take N docs = ?pre @ [?d]"
    using take_Suc_conv_app_nth [of "N - 1" docs] assms(1,2) by simp
  have len: "length ?pre = N - 1" using assms(2) by simp
  have "\<forall>i < length ?pre.
          collector_Publish_result ev
            (tr @ map (\<lambda>d. collector_Publish_call d None) (take i ?pre)) (?pre ! i) = None"
    using assms(3) len by (simp add: min_def)
  from Collect_enumerate_emit_prefix [OF this, of "?d # ?rest"]
  have "Collect_enumerate (emit ev) docs tr = Collect_enumerate (emit ev) (?d # ?rest) ?tr1"
    using docs by simp
  also have "\<dots> = (Exit 1, ?tr1 @ [collector_Publish_call ?d (Some err),
                        Errorf_call ''collector ended with error: %v'' err])"
    using assms(4) by (simp add: emit_def collectorPubFunc_def collector_Publish_def Let_def)
  finally have run: "Collect_enumerate (emit ev) docs tr =
      (Exit 1, ?tr1 @ [collector_Publish_call ?d (Some err),
                        Errorf_call ''collector ended with error: %v'' err])" .
  have "offered (map (\<lambda>d. collector_Publish_call d None) ?pre) = ?pre"
    by (rule offered_map)
  then show ?thesis
    unfolding run by (simp add: offered_append tk)
qed

theorem emit_failure_aborts_enumeration_witness:
  "fst (Collect_enumerate
          (emit ((env_ok :: (nat, nat, nat) env)
             \<lparr>collector_Publish_result :=
                (\<lambda>tr d. if d = 20 then Some (External ''nats: timeout'') else None)\<rparr>))
          [10, 20, 30] []) = Exit 1 \<and>
   offered (snd (Collect_enumerate
          (emit ((env_ok :: (nat, nat, nat) env)
             \<lparr>collector_Publish_result :=
                (\<lambda>tr d. if d = 20 then Some (External ''nats: timeout'') else None)\<rparr>))
          [10, 20, 30] [])) = [10, 20]"
proof -
  let ?ev = "(env_ok :: (nat, nat, nat) env)
             \<lparr>collector_Publish_result :=
                (\<lambda>tr d. if d = 20 then Some (External ''nats: timeout'') else None)\<rparr>"
  have h1: "0 < (2::nat)" by simp
  have h2: "(2::nat) \<le> length [10, 20, 30 :: nat]" by simp
  have h3: "\<forall>i < (2::nat) - 1.
              collector_Publish_result ?ev
                ([] @ map (\<lambda>d. collector_Publish_call d None) (take i [10, 20, 30]))
                ([10, 20, 30] ! i) = None"
    by simp
  have h4: "collector_Publish_result ?ev
              ([] @ map (\<lambda>d. collector_Publish_call d None) (take (2 - 1) [10, 20, 30]))
              ([10, 20, 30] ! (2 - 1)) = Some (External ''nats: timeout'')"
    by simp
  show ?thesis
    using emit_failure_aborts_enumeration [OF h1 h2 h3 h4] by simp
qed

section \<open>The processor's transport function\<close>

text \<open>
  C7: when marshalling the document tree fails, \<^verbatim>\<open>processorTransportFunc\<close> returns an
  error and makes no call at all, so nothing is published for the document. When it
  succeeds, the bytes are published once to the processed-document subject, and what
  the publish returned (an error or \<^verbatim>\<open>nil\<close>) is returned to the caller.
\<close>

theorem processorTransportFunc_marshal:
  "(\<forall>err. Marshal d = Inl err \<longrightarrow>
      (\<exists>e. fst (processorTransportFunc ev Marshal d tr) = Some e) \<and>
      snd (processorTransportFunc ev Marshal d tr) = tr) \<and>
   (\<forall>docTreeBytes. Marshal d = Inr docTreeBytes \<longrightarrow>
      (\<exists>err. err = emitter_Publish_result ev tr SubjectNameDocProcessed docTreeBytes \<and>
         processorTransportFunc ev Marshal d tr =
           (err, tr @ [emitter_Publish_call SubjectNameDocProcessed docTreeBytes err])))"
  by (simp add: processorTransportFunc_def emitter_Publish_def Let_def split: option.split)

theorem processorTransportFunc_marshal_witness:
  "(\<exists>e. fst (processorTransportFunc (env_ok :: (nat, nat, nat) env)
            (\<lambda>t :: nat. if t = 0 then Inl (External ''json: unsupported value'') else Inr ''{}'')
            0 []) = Some e) \<and>
   snd (processorTransportFunc (env_ok :: (nat, nat, nat) env)
          (\<lambda>t :: nat. if t = 0 then Inl (External ''json: unsupported value'') else Inr ''{}'')
          0 []) = [] \<and>
   processorTransportFunc (env_ok :: (nat, nat, nat) env)
     (\<lambda>t :: nat. if t = 0 then Inl (External ''json: unsupported value'') else Inr ''{}'')
     1 [] = (None, [emitter_Publish_call SubjectNameDocProcessed ''{}'' None]) \<and>
   processorTransportFunc
     ((env_ok :: (nat, nat, nat) env)
        \<lparr>emitter_Publish_result := (\<lambda>tr subj payload. Some (External ''nats: timeout''))\<rparr>)
     (\<lambda>t :: nat. if t = 0 then Inl (External ''json: unsupported value'') else Inr ''{}'')
     1 [] = (Some (External ''nats: timeout''),
             [emitter_Publish_call SubjectNameDocProcessed ''{}''
                (Some (External ''nats: timeout''))])"
  using processorTransportFunc_marshal
      [of "\<lambda>t :: nat. if t = 0 then Inl (External ''json: unsupported value'') else Inr ''{}''"
        0 "env_ok :: (nat, nat, nat) env" "[]"]
    processorTransportFunc_marshal
      [of "\<lambda>t :: nat. if t = 0 then Inl (External ''json: unsupported value'') else Inr ''{}''"
        1 "env_ok :: (nat, nat, nat) env" "[]"]
    processorTransportFunc_marshal
      [of "\<lambda>t :: nat. if t = 0 then Inl (External ''json: unsupported value'') else Inr ''{}''"
        1 "(env_ok :: (nat, nat, nat) env)
            \<lparr>emitter_Publish_result := (\<lambda>tr subj payload. Some (External ''nats: timeout''))\<rparr>"
        "[]"]
  by (simp add: env_ok_def)

section \<open>The assembler\<close>

lemma foldl_AppendGraph:
  "foldl AppendGraph g gs =
     g\<lparr>Nodes := Nodes g @ concat (map Nodes gs), Edges := Edges g @ concat (map Edges gs)\<rparr>"
  by (induction gs arbitrary: g) (simp_all add: AppendGraph_def)

lemma combined_concat:
  "combined gs = \<lparr>Nodes = concat (map Nodes gs), Edges = concat (map Edges gs)\<rparr>"
  by (simp add: combined_def foldl_AppendGraph)

lemma assemblerFunc_eq:
  "assemblerFunc ev client gs tr =
     (StoreGraph_result ev tr (combined gs) client,
      tr @ [StoreGraph_call (combined gs) client (StoreGraph_result ev tr (combined gs) client)])"
  by (simp add: assemblerFunc_def StoreGraph_def Let_def split: option.split)

lemma getAssembler_Inr:
  assumes "getAssembler ev opts tr = (Inr store, tr')"
  shows "store =
           assemblerFunc ev (Driver (dbAddr opts) (BasicAuth (user opts) (pass opts) (realm opts)))"
  using assms
  by (auto simp: getAssembler_def NewGraphClient_def CreateAuthTokenWithUsernameAndPassword_def
      Let_def split: option.splits prod.splits sum.splits)

text \<open>In the example surroundings the assembler is built, after seven index creations.\<close>

lemma getAssembler_example:
  "getAssembler (env_ok :: (nat, nat, nat) env) opts_example [] =
     (Inr (assemblerFunc env_ok client_example),
      [NewGraphClient_call ''neo4j://localhost:7687'' (BasicAuth ''neo4j'' ''s3cr3t'' ''neo4j'') None,
       CreateIndexOn_call client_example ''Vulnerability'' ''id'' None,
       CreateIndexOn_call client_example ''Artifact'' ''digest'' None,
       CreateIndexOn_call client_example ''Artifact'' ''name'' None,
       CreateIndexOn_call client_example ''Metadata'' ''id'' None,
       CreateIndexOn_call client_example ''Package'' ''purl'' None,
       CreateIndexOn_call client_example ''Package'' ''name'' None,
       CreateIndexOn_call client_example ''Attestation'' ''digest'' None])"
  by (simp add: getAssembler_def NewGraphClient_def createIndices_def CreateIndexOn_def
      CreateAuthTokenWithUsernameAndPassword_def indices_def env_ok_def opts_example_def
      client_example_def Let_def)

text \<open>
  C1: the function that \<^verbatim>\<open>getAssembler\<close> returns builds one graph, whose nodes are the
  concatenation of the fragments' nodes and whose edges are the concatenation of the
  fragments' edges, both in input order, and makes exactly one call: a store call to
  the client opened by \<^verbatim>\<open>getAssembler\<close>, with that graph; it returns what the call
  returned.
\<close>

theorem store_concatenates_and_stores_once:
  assumes "getAssembler ev opts tr0 = (Inr store, tr1)"
  shows "\<exists>client merged err.
           client = Driver (dbAddr opts) (BasicAuth (user opts) (pass opts) (realm opts)) \<and>
           Nodes merged = concat (map Nodes gs) \<and>
           Edges merged = concat (map Edges gs) \<and>
           err = StoreGraph_result ev tr merged client \<and>
           store gs tr = (err, tr @ [StoreGraph_call merged client err])"
  unfolding getAssembler_Inr [OF assms] assemblerFunc_eq combined_concat
  by simp

theorem store_concatenates_and_stores_once_witness:
  "assemblerFunc (env_ok :: (nat, nat, nat) env) client_example
     [\<lparr>Nodes = [1, 2], Edges = [12]\<rparr>, \<lparr>Nodes = [], Edges = []\<rparr>, \<lparr>Nodes = [3, 1], Edges = [31]\<rparr>]
     [] =
   (None, [StoreGraph_call \<lparr>Nodes = [1, 2, 3, 1], Edges = [12, 31]\<rparr> client_example None])"
  using store_concatenates_and_stores_once [OF getAssembler_example,
      of "[\<lparr>Nodes = [1, 2], Edges = [12]\<rparr>, \<lparr>Nodes = [], Edges = []\<rparr>,
           \<lparr>Nodes = [3, 1], Edges = [31]\<rparr>]" "[]"]
  by (auto simp: env_ok_def opts_example_def client_example_def)

lemma set_concat_mset:
  assumes "mset xs = mset ys"
  shows "set (concat (map f xs)) = set (concat (map f ys))"
proof -
  have "set xs = set ys" using assms by (rule mset_eq_setD)
  then show ?thesis by simp
qed

text \<open>
  C4: for two orderings of the same fragments, the function that \<^verbatim>\<open>getAssembler\<close>
  returns stores graphs with the same set of nodes and the same set of edges.
\<close>

theorem store_order_insensitive:
  assumes "getAssembler ev opts tr0 = (Inr store, tr1)"
      and "mset gs = mset gs'"
  shows "\<exists>client merged merged' err err'.
           store gs tr = (err, tr @ [StoreGraph_call merged client err]) \<and>
           store gs' tr = (err', tr @ [StoreGraph_call merged' client err']) \<and>
           set (Nodes merged) = set (Nodes merged') \<and>
           set (Edges merged) = set (Edges merged')"
proof -
  have n: "set (Nodes (combined gs)) = set (Nodes (combined gs'))"
    unfolding combined_concat using set_concat_mset [OF assms(2), of Nodes] by simp
  have e: "set (Edges (combined gs)) = set (Edges (combined gs'))"
    unfolding combined_concat using set_concat_mset [OF assms(2), of Edges] by simp
  show ?thesis
    unfolding getAssembler_Inr [OF assms(1)] assemblerFunc_eq
    using n e by blast
qed

theorem store_order_insensitive_witness:
  "\<exists>client merged merged' err err'.
     assemblerFunc (env_ok :: (nat, nat, nat) env) client_example
       [\<lparr>Nodes = [1, 2], Edges = [12]\<rparr>, \<lparr>Nodes = [3, 1], Edges = [31]\<rparr>] []
       = (err, [] @ [StoreGraph_call merged client err]) \<and>
     assemblerFunc (env_ok :: (nat, nat, nat) env) client_example
       [\<lparr>Nodes = [3, 1], Edges = [31]\<rparr>, \<lparr>Nodes = [1, 2], Edges = [12]\<rparr>] []
       = (err', [] @ [StoreGraph_call merged' client err']) \<and>
     set (Nodes merged) = set (Nodes merged') \<and>
     set (Edges merged) = set (Edges merged')"
proof -
  have h: "mset [\<lparr>Nodes = [1, 2], Edges = [12]\<rparr>, \<lparr>Nodes = [3, 1 :: nat], Edges = [31 :: nat]\<rparr>]
         = mset [\<lparr>Nodes = [3, 1], Edges = [31]\<rparr>, \<lparr>Nodes = [1, 2], Edges = [12]\<rparr>]"
    by simp
  show ?thesis
    using store_order_insensitive [OF getAssembler_example h, of "[]"] .
qed

lemma index_calls_append: "index_calls (xs @ ys) = index_calls xs @ index_calls ys"
  by (induction xs) (simp_all split: event.split)

lemma index_errors_append: "index_errors (xs @ ys) = index_errors xs @ index_errors ys"
  by (induction xs) (simp_all split: event.split option.split)

text \<open>
  The inner loop extends the trace by index creations only: all of the label's
  attributes, without an error, when it returns \<^verbatim>\<open>nil\<close>; otherwise the error it returns
  is the only one in what it added.
\<close>

lemma createIndices_attributes_trace:
  "createIndices_attributes ev client label attributes tr = (res, tr') \<Longrightarrow>
     \<exists>new. tr' = tr @ new \<and>
       (case res of
          None \<Rightarrow> index_calls new = map (Pair label) attributes \<and> index_errors new = []
        | Some err \<Rightarrow> index_errors new = [err])"
proof (induction attributes arbitrary: tr)
  case Nil
  then show ?case by simp
next
  case (Cons a as)
  show ?case
  proof (cases "CreateIndexOn_result ev tr client label a")
    case (Some err)
    with Cons.prems
    have "res = Some err" "tr' = tr @ [CreateIndexOn_call client label a (Some err)]"
      by (auto simp: CreateIndexOn_def Let_def)
    then show ?thesis by simp
  next
    case None
    let ?tr1 = "tr @ [CreateIndexOn_call client label a None]"
    from None Cons.prems
    have "createIndices_attributes ev client label as ?tr1 = (res, tr')"
      by (simp add: CreateIndexOn_def Let_def)
    from Cons.IH [OF this] obtain new where
      new: "tr' = ?tr1 @ new"
        "case res of
           None \<Rightarrow> index_calls new = map (Pair label) as \<and> index_errors new = []
         | Some err \<Rightarrow> index_errors new = [err]"
      by blast
    have "tr' = tr @ (CreateIndexOn_call client label a None # new)"
      using new(1) by simp
    moreover have
      "case res of
         None \<Rightarrow> index_calls (CreateIndexOn_call client label a None # new)
                   = map (Pair label) (a # as)
                 \<and> index_errors (CreateIndexOn_call client label a None # new) = []
       | Some err \<Rightarrow> index_errors (CreateIndexOn_call client label a None # new) = [err]"
      using new(2) by (simp split: option.splits)
    ultimately show ?thesis by blast
  qed
qed

lemma createIndices_labels_trace:
  "createIndices_labels ev client labels tr = (res, tr') \<Longrightarrow>
     \<exists>new. tr' = tr @ new \<and>
       (case res of
          None \<Rightarrow> index_calls new = concat (map label_entries labels) \<and> index_errors new = []
        | Some err \<Rightarrow> index_errors new = [err])"
proof (induction labels arbitrary: tr)
  case Nil
  then show ?case by simp
next
  case (Cons l ls)
  show ?case
  proof (cases "indices l")
    case None
    with Cons.prems have "createIndices_labels ev client ls tr = (res, tr')" by simp
    from Cons.IH [OF this] None show ?thesis
      by (auto simp: label_entries_def split: option.splits)
  next
    case (Some attrs)
    obtain r1 tr1 where a: "createIndices_attributes ev client l attrs tr = (r1, tr1)"
      by (cases "createIndices_attributes ev client l attrs tr")
    from createIndices_attributes_trace [OF a] obtain new1 where
      n1: "tr1 = tr @ new1"
        "case r1 of
           None \<Rightarrow> index_calls new1 = map (Pair l) attrs \<and> index_errors new1 = []
         | Some err \<Rightarrow> index_errors new1 = [err]"
      by blast
    show ?thesis
    proof (cases r1)
      case (Some err)
      with Cons.prems a \<open>indices l = Some attrs\<close> have "res = Some err" "tr' = tr1" by simp_all
      with n1 Some show ?thesis by auto
    next
      case None
      with Cons.prems a \<open>indices l = Some attrs\<close>
      have "createIndices_labels ev client ls tr1 = (res, tr')" by simp
      from Cons.IH [OF this] obtain new2 where
        n2: "tr' = tr1 @ new2"
          "case res of
             None \<Rightarrow> index_calls new2 = concat (map label_entries ls) \<and> index_errors new2 = []
           | Some err \<Rightarrow> index_errors new2 = [err]"
        by blast
      have "tr' = tr @ (new1 @ new2)" using n1(1) n2(1) by simp
      moreover have
        "case res of
           None \<Rightarrow> index_calls (new1 @ new2) = concat (map label_entries (l # ls))
                   \<and> index_errors (new1 @ new2) = []
         | Some err \<Rightarrow> index_errors (new1 @ new2) = [err]"
        using n1(2) n2(2) None \<open>indices l = Some attrs\<close>
        by (simp add: index_calls_append index_errors_append label_entries_def
            split: option.splits)
      ultimately show ?thesis by blast
    qed
  qed
qed

lemma mset_concat_image:
  "mset (concat (map f xs)) = (\<Sum>x \<in># mset xs. mset (f x))"
  by (induction xs) simp_all

lemma dom_indices:
  "dom indices = set [''Artifact'', ''Package'', ''Metadata'', ''Attestation'', ''Vulnerability'']"
  unfolding indices_def by (simp add: insert_commute)

lemma entries_in_literal_order:
  "concat (map label_entries
     [''Artifact'', ''Package'', ''Metadata'', ''Attestation'', ''Vulnerability''])
   = required_indices"
  by (simp add: label_entries_def indices_def required_indices_def)

lemma distinct_keys:
  "distinct [''Artifact'', ''Package'', ''Metadata'', ''Attestation'', ''Vulnerability'']"
  by simp

text \<open>Whatever the order of the visit, the entries visited are the required ones.\<close>

lemma range_entries:
  assumes "distinct labels" "set labels = dom indices"
  shows "mset (concat (map label_entries labels)) = mset required_indices"
proof -
  let ?keys = "[''Artifact'', ''Package'', ''Metadata'', ''Attestation'', ''Vulnerability'']"
  have "set labels = set ?keys" using assms(2) by (simp only: dom_indices)
  then have "mset labels = mset ?keys"
    using assms(1) distinct_keys by (simp only: set_eq_iff_mset_eq_distinct)
  then have "mset (concat (map label_entries labels)) = mset (concat (map label_entries ?keys))"
    by (simp only: mset_concat_image)
  then show ?thesis by (simp only: entries_in_literal_order)
qed

text \<open>
  C5: let the runtime visit every key of the \<^verbatim>\<open>indices\<close> map once, in any order. When
  \<^verbatim>\<open>getAssembler\<close> returns a store function, the index creations it has made by then are
  exactly the required entries, each once, and none returned an error. When an index
  creation returns an error, \<^verbatim>\<open>getAssembler\<close> returns that error and no store function.
\<close>

theorem getAssembler_creates_indices:
  assumes "distinct (range_indices ev)" and "set (range_indices ev) = dom indices"
  shows "\<exists>new. snd (getAssembler ev opts tr) = tr @ new \<and>
           ((\<exists>store. fst (getAssembler ev opts tr) = Inr store) \<longrightarrow>
              mset (index_calls new) = mset required_indices \<and> index_errors new = []) \<and>
           (\<forall>err \<in> set (index_errors new). fst (getAssembler ev opts tr) = Inl err)"
proof -
  let ?token = "CreateAuthTokenWithUsernameAndPassword (user opts) (pass opts) (realm opts)"
  let ?client = "Driver (dbAddr opts) ?token"
  let ?tr1 = "tr @ [NewGraphClient_call (dbAddr opts) ?token None]"
  show ?thesis
  proof (cases "NewGraphClient_result ev tr (dbAddr opts) ?token")
    case (Some err)
    then have "getAssembler ev opts tr =
        (Inl err, tr @ [NewGraphClient_call (dbAddr opts) ?token (Some err)])"
      by (simp add: getAssembler_def NewGraphClient_def Let_def)
    then show ?thesis by simp
  next
    case None
    obtain r2 tr2 where c: "createIndices_labels ev ?client (range_indices ev) ?tr1 = (r2, tr2)"
      by (cases "createIndices_labels ev ?client (range_indices ev) ?tr1")
    from createIndices_labels_trace [OF c] obtain new where
      new: "tr2 = ?tr1 @ new"
        "case r2 of
           None \<Rightarrow> index_calls new = concat (map label_entries (range_indices ev))
                   \<and> index_errors new = []
         | Some err \<Rightarrow> index_errors new = [err]"
      by blast
    from None c have res: "getAssembler ev opts tr =
        ((case r2 of Some err \<Rightarrow> Inl err | None \<Rightarrow> Inr (assemblerFunc ev ?client)), tr2)"
      by (simp add: getAssembler_def NewGraphClient_def createIndices_def Let_def
          split: option.splits)
    let ?new = "NewGraphClient_call (dbAddr opts) ?token None # new"
    have "snd (getAssembler ev opts tr) = tr @ ?new" using res new(1) by simp
    moreover have "(\<exists>store. fst (getAssembler ev opts tr) = Inr store) \<longrightarrow>
              mset (index_calls ?new) = mset required_indices \<and> index_errors ?new = []"
      using res new(2) range_entries [OF assms(1,2)] by (auto split: option.splits)
    moreover have "\<forall>err \<in> set (index_errors ?new). fst (getAssembler ev opts tr) = Inl err"
      using res new(2) by (auto split: option.splits)
    ultimately show ?thesis by blast
  qed
qed

theorem getAssembler_creates_indices_witness:
  "distinct (range_indices (env_ok :: (nat, nat, nat) env)) \<and>
   set (range_indices (env_ok :: (nat, nat, nat) env)) = dom indices \<and>
   (\<exists>new. snd (getAssembler (env_ok :: (nat, nat, nat) env) opts_example []) = [] @ new \<and>
      mset (index_calls new) = mset required_indices \<and> index_errors new = []) \<and>
   fst (getAssembler
          ((env_ok :: (nat, nat, nat) env)
             \<lparr>CreateIndexOn_result :=
                (\<lambda>tr client label attribute.
                   if label = ''Metadata'' then Some (External ''index refused'') else None)\<rparr>)
          opts_example []) = Inl (External ''index refused'')"
proof -
  let ?bad = "(env_ok :: (nat, nat, nat) env)
             \<lparr>CreateIndexOn_result :=
                (\<lambda>tr client label attribute.
                   if label = ''Metadata'' then Some (External ''index refused'') else None)\<rparr>"
  have h1: "distinct (range_indices (env_ok :: (nat, nat, nat) env))"
    by (simp add: env_ok_def)
  have h2: "set (range_indices (env_ok :: (nat, nat, nat) env)) = dom indices"
    unfolding dom_indices by (simp add: env_ok_def insert_commute)
  have h3: "\<exists>store. fst (getAssembler (env_ok :: (nat, nat, nat) env) opts_example []) = Inr store"
    by (simp add: getAssembler_example)
  have ok: "\<exists>new. snd (getAssembler (env_ok :: (nat, nat, nat) env) opts_example []) = [] @ new \<and>
      mset (index_calls new) = mset required_indices \<and> index_errors new = []"
    using h3 getAssembler_creates_indices [OF h1 h2, of opts_example "[]"] by blast
  have b1: "distinct (range_indices ?bad)" using h1 by simp
  have b2: "set (range_indices ?bad) = dom indices" using h2 by simp
  have tr: "snd (getAssembler ?bad opts_example []) =
     [NewGraphClient_call ''neo4j://localhost:7687'' (BasicAuth ''neo4j'' ''s3cr3t'' ''neo4j'') None,
      CreateIndexOn_call client_example ''Vulnerability'' ''id'' None,
      CreateIndexOn_call client_example ''Artifact'' ''digest'' None,
      CreateIndexOn_call client_example ''Artifact'' ''name'' None,
      CreateIndexOn_call client_example ''Metadata'' ''id'' (Some (External ''index refused''))]"
    by (simp add: getAssembler_def NewGraphClient_def createIndices_def CreateIndexOn_def
        CreateAuthTokenWithUsernameAndPassword_def indices_def env_ok_def opts_example_def
        client_example_def Let_def)
  from getAssembler_creates_indices [OF b1 b2, of opts_example "[]"] obtain new where
    new: "snd (getAssembler ?bad opts_example []) = [] @ new"
      "\<forall>err \<in> set (index_errors new). fst (getAssembler ?bad opts_example []) = Inl err"
    by blast
  from new(1) have "index_errors new = [External ''index refused'']"
    unfolding tr by (simp add: eq_commute [of _ new])
  with new(2) have bad: "fst (getAssembler ?bad opts_example []) = Inl (External ''index refused'')"
    by simp
  show ?thesis using h1 h2 ok bad by blast
qed

end
